theory Spec2Isabelle
  imports Complex_Main "HOL-Library.AList" "HOL-Library.Word"
begin

section \<open>Strings\<close>

text \<open>
  The service is \<^verbatim>\<open>src/app.py\<close>. Its strings are modelled as lists of 8-bit
  characters, and \<open>lower\<close> maps the letters A to Z to a to z and leaves every other
  character as it is. This is \<^verbatim>\<open>str.lower\<close> on ASCII text, and the model is exact
  there. Outside ASCII \<^verbatim>\<open>str.lower\<close> changes other letters too, a few of them into
  ASCII letters (U+212A, the Kelvin sign, into k): on such a query the code can find a
  keyword that the model does not find.
\<close>

definition lower_char :: "char \<Rightarrow> char" where
  "lower_char c =
     (case map_of (zip ''ABCDEFGHIJKLMNOPQRSTUVWXYZ'' ''abcdefghijklmnopqrstuvwxyz'') c of
        Some l \<Rightarrow> l
      | None \<Rightarrow> c)"

definition lower :: "string \<Rightarrow> string" where
  "lower s = map lower_char s"

text \<open>\<^verbatim>\<open>s.startswith(p)\<close>, and the substring test \<^verbatim>\<open>sub in s\<close>.\<close>

fun startswith :: "string \<Rightarrow> string \<Rightarrow> bool" where
  "startswith s [] = True"
| "startswith [] (p # ps) = False"
| "startswith (c # cs) (p # ps) = (c = p \<and> startswith cs ps)"

fun str_in :: "string \<Rightarrow> string \<Rightarrow> bool" where
  "str_in sub [] = (sub = [])"
| "str_in sub (c # cs) = (startswith (c # cs) sub \<or> str_in sub cs)"

section \<open>The catalog\<close>

text \<open>
  An entry of \<^verbatim>\<open>EDUCATIONAL_IMAGES\<close> is a dictionary with the four keys
  \<^verbatim>\<open>url\<close>, \<^verbatim>\<open>title\<close>, \<^verbatim>\<open>caption\<close> and \<^verbatim>\<open>alt_text\<close>.
\<close>

record image =
  url :: string
  title :: string
  caption :: string
  alt_text :: string

definition romeo_juliet_dicksee :: image where
  "romeo_juliet_dicksee = \<lparr>
     url = ''https://upload.wikimedia.org/wikipedia/commons/thumb/e/e6/DickseeRomeoandJuliet.jpg/400px-DickseeRomeoandJuliet.jpg'',
     title = ''Romeo and Juliet by Frank Dicksee'',
     caption = ''Romeo and Juliet by Frank Dicksee (1884) - Public Domain'',
     alt_text = ''Famous painting of Romeo and Juliet embracing''\<rparr>"

definition romeo_juliet_waterhouse :: image where
  "romeo_juliet_waterhouse = \<lparr>
     url = ''https://upload.wikimedia.org/wikipedia/commons/thumb/b/ba/John_William_Waterhouse_-_Juliet_-_1898.jpg/400px-John_William_Waterhouse_-_Juliet_-_1898.jpg'',
     title = ''Juliet by John William Waterhouse'',
     caption = ''Juliet by John William Waterhouse (1898) - Public Domain'',
     alt_text = ''Painting of Juliet on her balcony''\<rparr>"

definition shakespeare_portrait :: image where
  "shakespeare_portrait = \<lparr>
     url = ''https://upload.wikimedia.org/wikipedia/commons/thumb/a/a2/Shakespeare.jpg/220px-Shakespeare.jpg'',
     title = ''William Shakespeare Portrait'',
     caption = ''William Shakespeare - The Bard'',
     alt_text = ''Portrait of William Shakespeare''\<rparr>"

definition solar_system :: image where
  "solar_system = \<lparr>
     url = ''https://upload.wikimedia.org/wikipedia/commons/thumb/c/cb/Planets2013.svg/450px-Planets2013.svg.png'',
     title = ''Solar System Diagram'',
     caption = ''The Solar System - Educational Diagram'',
     alt_text = ''Diagram showing all planets in the solar system''\<rparr>"

definition dna_structure :: image where
  "dna_structure = \<lparr>
     url = ''https://upload.wikimedia.org/wikipedia/commons/thumb/4/4c/DNA_Structure%2BKey%2BLabelled.pn_NoBB.png/220px-DNA_Structure%2BKey%2BLabelled.pn_NoBB.png'',
     title = ''DNA Double Helix'',
     caption = ''DNA Double Helix Structure'',
     alt_text = ''3D model of DNA double helix''\<rparr>"

definition EDUCATIONAL_IMAGES :: "(string \<times> image) list" where
  "EDUCATIONAL_IMAGES =
     [(''romeo_juliet_dicksee'', romeo_juliet_dicksee),
      (''romeo_juliet_waterhouse'', romeo_juliet_waterhouse),
      (''shakespeare_portrait'', shakespeare_portrait),
      (''solar_system'', solar_system),
      (''dna_structure'', dna_structure)]"

section \<open>The resolver\<close>

text \<open>
  \<^verbatim>\<open>find_relevant_images\<close>, lines 72 to 103. The keyword chain on the lower-cased
  query (lines 78 to 87) and the chain on the lower-cased subject (lines 92 to 97) each
  append at most one entry to \<^verbatim>\<open>results\<close>; they are written as the list they
  append. The subject is \<^verbatim>\<open>None\<close> or a string, and the test
  \<^verbatim>\<open>if not results and subject\<close> is false for \<^verbatim>\<open>None\<close> and for the empty string.
\<close>

definition keyword_results :: "string \<Rightarrow> image list" where
  "keyword_results query_lower =
     (if str_in ''dicksee'' query_lower
         \<or> (str_in ''romeo'' query_lower \<and> str_in ''juliet'' query_lower)
      then [romeo_juliet_dicksee]
      else if str_in ''juliet'' query_lower then [romeo_juliet_waterhouse]
      else if str_in ''shakespeare'' query_lower then [shakespeare_portrait]
      else if str_in ''solar'' query_lower \<or> str_in ''planet'' query_lower then [solar_system]
      else if str_in ''dna'' query_lower \<or> str_in ''genetic'' query_lower then [dna_structure]
      else [])"

definition subject_results :: "string \<Rightarrow> image list" where
  "subject_results subject_lower =
     (if str_in ''english'' subject_lower \<or> str_in ''literature'' subject_lower
      then [shakespeare_portrait]
      else if str_in ''science'' subject_lower \<or> str_in ''biology'' subject_lower
      then [dna_structure]
      else if str_in ''astronomy'' subject_lower \<or> str_in ''physics'' subject_lower
      then [solar_system]
      else [])"

definition find_relevant_images :: "string \<Rightarrow> string option \<Rightarrow> image list" where
  "find_relevant_images query subject =
     (let query_lower = lower query;
          results = keyword_results query_lower;
          results = (case subject of
                       Some s \<Rightarrow>
                         if results = [] \<and> s \<noteq> [] then results @ subject_results (lower s)
                         else results
                     | None \<Rightarrow> results);
          results = (if results = [] then results @ [shakespeare_portrait] else results)
      in results)"

section \<open>The fetch cache\<close>

text \<open>
  \<^verbatim>\<open>base64.b64encode(response.content).decode('utf-8')\<close>: three bytes give four
  characters of the alphabet, and a last group of one or two bytes is padded with
  \<^verbatim>\<open>=\<close>.
\<close>

definition b64_char :: "nat \<Rightarrow> char" where
  "b64_char n =
     ''ABCDEFGHIJKLMNOPQRSTUVWXYZabcdefghijklmnopqrstuvwxyz0123456789+/'' ! (n mod 64)"

fun b64encode :: "8 word list \<Rightarrow> string" where
  "b64encode [] = []"
| "b64encode [a] =
     (let n = unat a * 65536
      in [b64_char (n div 262144), b64_char (n div 4096), CHR ''='', CHR ''=''])"
| "b64encode [a, b] =
     (let n = unat a * 65536 + unat b * 256
      in [b64_char (n div 262144), b64_char (n div 4096), b64_char (n div 64), CHR ''=''])"
| "b64encode (a # b # c # rest) =
     (let n = unat a * 65536 + unat b * 256 + unat c
      in [b64_char (n div 262144), b64_char (n div 4096), b64_char (n div 64), b64_char n]
         @ b64encode rest)"

text \<open>
  An exception is its class name and the text \<^verbatim>\<open>str(e)\<close>. \<open>Exn\<close> are the instances
  of \<^verbatim>\<open>Exception\<close>, the ones a clause \<^verbatim>\<open>except Exception\<close> catches; \<open>BaseExn\<close> are
  the others (\<^verbatim>\<open>KeyboardInterrupt\<close>, \<^verbatim>\<open>SystemExit\<close>, \<^verbatim>\<open>GeneratorExit\<close>), which such
  a clause lets through.
\<close>

datatype exn =
  is_Exception: Exn (exn_class: string) (exn_str: string)
  | BaseExn (exn_class: string) (exn_str: string)

text \<open>
  What the calls into the environment do is not decided by the program, and each of them
  can raise an exception of either kind.
  \<^item> \<^verbatim>\<open>requests.get(url, timeout=10)\<close> returns a response (status code and body) or
    raises (time-out, connection error, invalid URL, an interrupt while it waits). The
    transport is a function of the number of network calls made so far and of the
    location, so that a later call may get another answer.
  \<^item> \<^verbatim>\<open>hashlib.md5(url.encode()).hexdigest()\<close> gives the fingerprint of a location, or
    raises (\<^verbatim>\<open>str.encode\<close> raises \<^verbatim>\<open>UnicodeEncodeError\<close> on a lone surrogate).
  \<^item> \<^verbatim>\<open>print(message)\<close> writes the message (\<open>None\<close>) or raises (\<open>Some e\<close>: a closed
    pipe, an output encoding that lacks a character).
\<close>

datatype net_result = Response int "8 word list" | Raises exn

type_synonym transport = "nat \<Rightarrow> string \<Rightarrow> net_result"

type_synonym digest = "string \<Rightarrow> exn + string"

type_synonym printer = "string \<Rightarrow> exn option"

text \<open>
  The global \<^verbatim>\<open>image_cache\<close> is a dictionary from fingerprint to encoded text, kept
  as an association list in insertion order; \<^verbatim>\<open>cache_key in image_cache\<close> and
  \<^verbatim>\<open>image_cache[cache_key]\<close> are \<^const>\<open>map_of\<close>, the assignment
  \<^verbatim>\<open>image_cache[cache_key] = v\<close> is \<^const>\<open>AList.update\<close> and
  \<^verbatim>\<open>len(image_cache)\<close> is \<^const>\<open>length\<close>. The field \<open>net_calls\<close> is not in the
  program: it counts the calls of \<^verbatim>\<open>requests.get\<close>, as a counting mock transport
  would.
\<close>

record world =
  image_cache :: "(string \<times> string) list"
  net_calls :: nat

definition initial_world :: world where
  "initial_world = \<lparr>image_cache = [], net_calls = 0\<rparr>"

text \<open>
  \<^verbatim>\<open>download_image\<close>, lines 52 to 70; \<open>md5_hexdigest\<close>, \<open>requests_get\<close> and
  \<open>print\<close> are the environment, and every result below holds for any of them. The
  outcome of a call is \<open>Inr r\<close> when it returns \<open>r\<close> and \<open>Inl e\<close> when it raises \<open>e\<close>
  to its caller, together with the state it leaves.

  The body of the \<^verbatim>\<open>try\<close> block is \<open>download_image_try\<close>: it returns a value
  (\<open>Inr (Some v)\<close>), raises (\<open>Inl e\<close>) or ends without \<^verbatim>\<open>return\<close> (\<open>Inr None\<close>, status
  code not 200). The clause of line 68 catches the instances of \<^verbatim>\<open>Exception\<close> only; it
  prints the message of line 69, which is outside any \<^verbatim>\<open>try\<close>, and then control
  reaches \<^verbatim>\<open>return None\<close> at line 70.
\<close>

definition download_image_try ::
  "digest \<Rightarrow> transport \<Rightarrow> string \<Rightarrow> world \<Rightarrow> (exn + string option) \<times> world" where
  "download_image_try md5_hexdigest requests_get loc w =
     (case md5_hexdigest loc of
        Inl e \<Rightarrow> (Inl e, w)
      | Inr cache_key \<Rightarrow>
     (case map_of (image_cache w) cache_key of
        Some cached \<Rightarrow> (Inr (Some cached), w)
      | None \<Rightarrow>
          (let w1 = w\<lparr>net_calls := Suc (net_calls w)\<rparr> in
           case requests_get (net_calls w) loc of
             Raises e \<Rightarrow> (Inl e, w1)
           | Response status_code content \<Rightarrow>
               if status_code = 200 then
                 (let image_base64 = b64encode content;
                      w2 = (if length (image_cache w1) < 20
                            then w1\<lparr>image_cache :=
                                      AList.update cache_key image_base64 (image_cache w1)\<rparr>
                            else w1)
                  in (Inr (Some image_base64), w2))
               else (Inr None, w1))))"

definition error_message :: "string \<Rightarrow> exn \<Rightarrow> string" where
  "error_message loc e = ''Error downloading image from '' @ loc @ '': '' @ exn_str e"

definition download_image ::
  "digest \<Rightarrow> transport \<Rightarrow> printer \<Rightarrow> string \<Rightarrow> world \<Rightarrow> (exn + string option) \<times> world" where
  "download_image md5_hexdigest requests_get print loc w =
     (case download_image_try md5_hexdigest requests_get loc w of
        (Inr r, w') \<Rightarrow> (Inr r, w')
      | (Inl e, w') \<Rightarrow>
          if is_Exception e then
            (case print (error_message loc e) of
               None \<Rightarrow> (Inr None, w')
             | Some e' \<Rightarrow> (Inl e', w'))
          else (Inl e, w'))"

section \<open>The request handler\<close>

text \<open>
  The values \<^verbatim>\<open>request.json\<close> can give: what \<^verbatim>\<open>json.loads\<close> builds. An object is
  the parsed dictionary, with distinct keys. A float is its value (a float that is not
  finite is true like any other float that is not zero).
\<close>

datatype json =
  JNull
  | JBool bool
  | JInt int
  | JFloat real
  | JStr string
  | JArr "json list"
  | JObj "(string \<times> json) list"

fun truthy :: "json \<Rightarrow> bool" where
  "truthy JNull = False"
| "truthy (JBool b) = b"
| "truthy (JInt n) = (n \<noteq> 0)"
| "truthy (JFloat r) = (r \<noteq> 0)"
| "truthy (JStr s) = (s \<noteq> [])"
| "truthy (JArr xs) = (xs \<noteq> [])"
| "truthy (JObj kvs) = (kvs \<noteq> [])"

fun type_name :: "json \<Rightarrow> string" where
  "type_name JNull = ''NoneType''"
| "type_name (JBool b) = ''bool''"
| "type_name (JInt n) = ''int''"
| "type_name (JFloat r) = ''float''"
| "type_name (JStr s) = ''str''"
| "type_name (JArr xs) = ''list''"
| "type_name (JObj kvs) = ''dict''"

definition attribute_error :: "json \<Rightarrow> string \<Rightarrow> exn" where
  "attribute_error v attr =
     Exn ''AttributeError''
       ([CHR 0x27] @ type_name v @ [CHR 0x27] @ '' object has no attribute ''
        @ [CHR 0x27] @ attr @ [CHR 0x27])"

text \<open>\<^verbatim>\<open>data.get(key, default)\<close>: only a dictionary has the method.\<close>

definition dict_get :: "json \<Rightarrow> string \<Rightarrow> json \<Rightarrow> exn + json" where
  "dict_get data key dflt =
     (case data of
        JObj kvs \<Rightarrow> (case map_of kvs key of Some v \<Rightarrow> Inr v | None \<Rightarrow> Inr dflt)
      | _ \<Rightarrow> Inl (attribute_error data ''get''))"

text \<open>
  The call \<^verbatim>\<open>find_relevant_images(query, subject)\<close> at line 119 with the values of the
  request, whatever their types: \<^verbatim>\<open>query.lower()\<close> needs a string, and
  \<^verbatim>\<open>subject.lower()\<close> is reached when no keyword rule matched and the subject is true.
\<close>

definition call_find_relevant_images :: "json \<Rightarrow> json \<Rightarrow> exn + image list" where
  "call_find_relevant_images query subject =
     (case query of
        JStr q \<Rightarrow>
          if keyword_results (lower q) = [] \<and> truthy subject then
            (case subject of
               JStr s \<Rightarrow> Inr (find_relevant_images q (Some s))
             | _ \<Rightarrow> Inl (attribute_error subject ''lower''))
          else Inr (find_relevant_images q None)
      | _ \<Rightarrow> Inl (attribute_error query ''lower''))"

text \<open>
  The slice \<^verbatim>\<open>images[:count]\<close>: an integer bound (a negative one counts from the
  end, a Boolean is 0 or 1), \<^verbatim>\<open>None\<close> for the whole list, a type error otherwise.
\<close>

definition slice_upto_int :: "'a list \<Rightarrow> int \<Rightarrow> 'a list" where
  "slice_upto_int xs n = (if 0 \<le> n then take (nat n) xs else take (nat (int (length xs) + n)) xs)"

definition slice_upto :: "'a list \<Rightarrow> json \<Rightarrow> exn + 'a list" where
  "slice_upto xs count =
     (case count of
        JInt n \<Rightarrow> Inr (slice_upto_int xs n)
      | JBool b \<Rightarrow> Inr (slice_upto_int xs (if b then 1 else 0))
      | JNull \<Rightarrow> Inr xs
      | _ \<Rightarrow> Inl (Exn ''TypeError''
                 ''slice indices must be integers or None or have an __index__ method''))"

text \<open>The dictionary appended to \<^verbatim>\<open>processed_images\<close>, lines 134 to 141.\<close>

definition processed_image :: "image \<Rightarrow> string option \<Rightarrow> json" where
  "processed_image img image_data =
     JObj [(''url'', JStr (if \<not> (case image_data of Some d \<Rightarrow> d \<noteq> [] | None \<Rightarrow> False)
                          then url img else [])),
           (''data'', JStr (case image_data of
                              Some d \<Rightarrow> if d \<noteq> [] then d else []
                            | None \<Rightarrow> [])),
           (''title'', JStr (title img)),
           (''educational_caption'', JStr (caption img)),
           (''alt_text'', JStr (alt_text img)),
           (''source'', JStr ''wikimedia'')]"

text \<open>
  The loop of lines 130 to 141 over the selected entries. An exception that leaves
  \<^verbatim>\<open>download_image\<close> ends the loop and goes on to the caller.
\<close>

fun process_images ::
  "digest \<Rightarrow> transport \<Rightarrow> printer \<Rightarrow> image list \<Rightarrow> world \<Rightarrow> (exn + json list) \<times> world" where
  "process_images md5_hexdigest requests_get print [] w = (Inr [], w)"
| "process_images md5_hexdigest requests_get print (img # imgs) w =
     (case download_image md5_hexdigest requests_get print (url img) w of
        (Inl e, w1) \<Rightarrow> (Inl e, w1)
      | (Inr image_data, w1) \<Rightarrow>
          (case process_images md5_hexdigest requests_get print imgs w1 of
             (Inl e, w2) \<Rightarrow> (Inl e, w2)
           | (Inr processed, w2) \<Rightarrow> (Inr (processed_image img image_data # processed), w2)))"

text \<open>
  \<^verbatim>\<open>fetch_image\<close>, lines 110 to 153. \<^verbatim>\<open>request.json\<close> raises (a body that is not
  JSON) or gives a value. \<open>fetch_image_try\<close> is the body of the \<^verbatim>\<open>try\<close> block, and the
  clause of line 148 catches the instances of \<^verbatim>\<open>Exception\<close> only. The outcome is
  \<open>Inr\<close> of the payload given to \<^verbatim>\<open>jsonify\<close>, or \<open>Inl e\<close> when \<open>e\<close> leaves the handler.
\<close>

definition fetch_image_try ::
  "digest \<Rightarrow> transport \<Rightarrow> printer \<Rightarrow> exn + json \<Rightarrow> world \<Rightarrow> (exn + json) \<times> world" where
  "fetch_image_try md5_hexdigest requests_get print request_json w =
     (case request_json of
        Inl e \<Rightarrow> (Inl e, w)
      | Inr data \<Rightarrow>
     (case dict_get data ''query'' (JStr []) of
        Inl e \<Rightarrow> (Inl e, w)
      | Inr query \<Rightarrow>
     (case dict_get data ''subject'' JNull of
        Inl e \<Rightarrow> (Inl e, w)
      | Inr subject \<Rightarrow>
     (case dict_get data ''count'' (JInt 1) of
        Inl e \<Rightarrow> (Inl e, w)
      | Inr count \<Rightarrow>
     (case call_find_relevant_images query subject of
        Inl e \<Rightarrow> (Inl e, w)
      | Inr images \<Rightarrow>
          if images = [] then
            (Inr (JObj [(''success'', JBool False), (''images'', JArr []),
                        (''error'', JStr ''No relevant images found'')]), w)
          else
            (case slice_upto images count of
               Inl e \<Rightarrow> (Inl e, w)
             | Inr selected \<Rightarrow>
                 (case process_images md5_hexdigest requests_get print selected w of
                    (Inl e, w') \<Rightarrow> (Inl e, w')
                  | (Inr processed_images, w') \<Rightarrow>
                      (Inr (JObj [(''success'', JBool True),
                                  (''images'', JArr processed_images)]), w'))))))))"

definition fetch_image ::
  "digest \<Rightarrow> transport \<Rightarrow> printer \<Rightarrow> exn + json \<Rightarrow> world \<Rightarrow> (exn + json) \<times> world" where
  "fetch_image md5_hexdigest requests_get print request_json w =
     (case fetch_image_try md5_hexdigest requests_get print request_json w of
        (Inr r, w') \<Rightarrow> (Inr r, w')
      | (Inl e, w') \<Rightarrow>
          if is_Exception e then
            (Inr (JObj [(''success'', JBool False), (''images'', JArr []),
                        (''error'', JStr (exn_str e))]), w')
          else (Inl e, w'))"

text \<open>
  The states the service can be in: it starts with an empty cache, and the cache is
  written by \<^verbatim>\<open>download_image\<close> only, called directly or by a request, with any
  transport and any printer.
\<close>

inductive reachable :: "digest \<Rightarrow> world \<Rightarrow> bool" for md5_hexdigest where
  start: "reachable md5_hexdigest initial_world"
| download: "reachable md5_hexdigest w \<Longrightarrow>
     reachable md5_hexdigest (snd (download_image md5_hexdigest requests_get print loc w))"
| request: "reachable md5_hexdigest w \<Longrightarrow>
     reachable md5_hexdigest
       (snd (fetch_image md5_hexdigest requests_get print request_json w))"

text \<open>
  The condition the capacity claim is about: the keys of the cache are distinct, as those of a
  dictionary are, and there are at most 20 of them.
\<close>

definition cache_ok :: "world \<Rightarrow> bool" where
  "cache_ok w \<longleftrightarrow> distinct (map fst (image_cache w)) \<and> length (image_cache w) \<le> 20"

section \<open>Environments of the examples\<close>

text \<open>
  The concrete runs below need an environment. \<open>plain_key\<close> takes the location itself as
  its fingerprint (no run below depends on what the digest is, only on its being a
  function); \<open>always r\<close> is the transport that answers every call with \<open>r\<close>, so
  \<open>serves_M\<close> answers 200 with the one byte \<^verbatim>\<open>M\<close>, which encodes to \<^verbatim>\<open>TQ==\<close>;
  \<open>prints\<close> writes every message and \<open>closed_pipe\<close> writes none.
  \<open>downloads\<close> calls \<^verbatim>\<open>download_image\<close> on a list of locations in turn, and
  \<open>full_world\<close> is the state after 20 successful fetches of distinct locations.
\<close>

definition plain_key :: digest where
  "plain_key loc = Inr loc"

definition always :: "net_result \<Rightarrow> transport" where
  "always r n loc = r"

definition prints :: printer where
  "prints message = None"

definition timed_out :: exn where
  "timed_out = Exn ''ConnectTimeout'' ''connection timed out''"

definition bad_request :: exn where
  "bad_request = Exn ''BadRequest''
     ''400 Bad Request: The browser (or proxy) sent a request that this server could not understand.''"

definition broken_pipe :: exn where
  "broken_pipe = Exn ''BrokenPipeError'' ''[Errno 32] Broken pipe''"

definition keyboard_interrupt :: exn where
  "keyboard_interrupt = BaseExn ''KeyboardInterrupt'' []"

definition closed_pipe :: printer where
  "closed_pipe message = Some broken_pipe"

abbreviation loc_a :: string where
  "loc_a \<equiv> ''https://example.org/a''"

abbreviation loc_u :: string where
  "loc_u \<equiv> ''https://example.org/u''"

abbreviation serves_M :: transport where
  "serves_M \<equiv> always (Response 200 [0x4d])"

abbreviation times_out :: transport where
  "times_out \<equiv> always (Raises timed_out)"

abbreviation interrupted :: transport where
  "interrupted \<equiv> always (Raises keyboard_interrupt)"

fun downloads :: "digest \<Rightarrow> transport \<Rightarrow> printer \<Rightarrow> string list \<Rightarrow> world \<Rightarrow> world" where
  "downloads h tr pr [] w = w"
| "downloads h tr pr (loc # locs) w = downloads h tr pr locs (snd (download_image h tr pr loc w))"

definition twenty_locations :: "string list" where
  "twenty_locations = map (\<lambda>c. ''https://example.org/'' @ [c]) ''abcdefghijklmnopqrst''"

definition full_world :: world where
  "full_world = downloads plain_key serves_M prints twenty_locations initial_world"

section \<open>Properties of the resolver\<close>

lemma startswith_iff: "startswith s p \<longleftrightarrow> (\<exists>post. s = p @ post)"
  by (induction s p rule: startswith.induct) auto

text \<open>\<^const>\<open>str_in\<close> is the substring test: some text before, the substring, some text after.\<close>

lemma str_in_iff: "str_in sub s \<longleftrightarrow> (\<exists>pre post. s = pre @ sub @ post)"
proof (induction s)
  case Nil
  then show ?case by auto
next
  case (Cons c cs)
  show ?case
  proof
    assume "str_in sub (c # cs)"
    then consider "startswith (c # cs) sub" | "str_in sub cs" by auto
    then show "\<exists>pre post. c # cs = pre @ sub @ post"
    proof cases
      case 1
      then obtain post where "c # cs = sub @ post" by (auto simp: startswith_iff)
      then have "c # cs = [] @ sub @ post" by simp
      then show ?thesis by blast
    next
      case 2
      then obtain pre post where "cs = pre @ sub @ post" using Cons.IH by auto
      then have "c # cs = (c # pre) @ sub @ post" by simp
      then show ?thesis by blast
    qed
  next
    assume "\<exists>pre post. c # cs = pre @ sub @ post"
    then obtain pre post where e: "c # cs = pre @ sub @ post" by blast
    show "str_in sub (c # cs)"
    proof (cases pre)
      case Nil
      with e have "startswith (c # cs) sub" by (auto simp: startswith_iff)
      then show ?thesis by simp
    next
      case (Cons a pre')
      with e have "cs = pre' @ sub @ post" by simp
      then have "str_in sub cs" using Cons.IH by blast
      then show ?thesis by simp
    qed
  qed
qed

lemma lower_append: "lower (a @ b) = lower a @ lower b"
  by (simp add: lower_def)

text \<open>A keyword written in any letter case inside \<open>s\<close> is found in the lower-cased \<open>s\<close>.\<close>

lemma str_in_lower:
  assumes "s = pre @ r @ post" and "lower r = k"
  shows "str_in k (lower s)"
proof -
  from assms have "lower s = lower pre @ k @ lower post"
    by (simp add: lower_append)
  then show ?thesis
    unfolding str_in_iff by blast
qed

lemma find_relevant_images_keyword:
  "keyword_results (lower query) \<noteq> [] \<Longrightarrow>
     find_relevant_images query subject = keyword_results (lower query)"
  by (simp add: find_relevant_images_def Let_def split: option.split)

text \<open>
  Claim C1. A query that holds \<^verbatim>\<open>romeo\<close> and \<^verbatim>\<open>juliet\<close> somewhere, each in any
  letter case and in either order, resolves to exactly the Dicksee entry, whether or not
  \<^verbatim>\<open>dicksee\<close> occurs in it, for every subject: none or any string, and also any other
  value a request can carry, since the subject is not looked at once a keyword rule matched.
\<close>

theorem romeo_and_juliet_give_dicksee:
  assumes "query = a @ r @ b" and "lower r = ''romeo''"
    and "query = c @ j @ d" and "lower j = ''juliet''"
  shows "find_relevant_images query subject = [romeo_juliet_dicksee]
    \<and> call_find_relevant_images (JStr query) subject_value = Inr [romeo_juliet_dicksee]"
proof -
  from assms(1,2) have r: "str_in ''romeo'' (lower query)"
    by (rule str_in_lower)
  from assms(3,4) have j: "str_in ''juliet'' (lower query)"
    by (rule str_in_lower)
  from r j have k: "keyword_results (lower query) = [romeo_juliet_dicksee]"
    by (simp add: keyword_results_def)
  then have "find_relevant_images query s = [romeo_juliet_dicksee]" for s
    by (simp add: find_relevant_images_keyword)
  with k show ?thesis
    by (simp add: call_find_relevant_images_def)
qed

theorem romeo_and_juliet_give_dicksee_witness:
  "''Is JULIET older than Romeo?'' = ''Is JULIET older than '' @ ''Romeo'' @ ''?''
   \<and> lower ''Romeo'' = ''romeo''
   \<and> ''Is JULIET older than Romeo?'' = ''Is '' @ ''JULIET'' @ '' older than Romeo?''
   \<and> lower ''JULIET'' = ''juliet''
   \<and> find_relevant_images ''Is JULIET older than Romeo?'' (Some ''physics'')
       = [romeo_juliet_dicksee]
   \<and> call_find_relevant_images (JStr ''Is JULIET older than Romeo?'') (JInt 5)
       = Inr [romeo_juliet_dicksee]"
proof -
  have 1: "''Is JULIET older than Romeo?'' = ''Is JULIET older than '' @ ''Romeo'' @ ''?''"
    by simp
  have 2: "lower ''Romeo'' = ''romeo''"
    by (simp add: lower_def lower_char_def)
  have 3: "''Is JULIET older than Romeo?'' = ''Is '' @ ''JULIET'' @ '' older than Romeo?''"
    by simp
  have 4: "lower ''JULIET'' = ''juliet''"
    by (simp add: lower_def lower_char_def)
  from romeo_and_juliet_give_dicksee [OF 1 2 3 4, of "Some ''physics''" "JInt 5"] 1 2 3 4
  show ?thesis by blast
qed

lemma keyword_results_cases:
  "keyword_results ql = [] \<or> keyword_results ql = [romeo_juliet_dicksee]
   \<or> keyword_results ql = [romeo_juliet_waterhouse] \<or> keyword_results ql = [shakespeare_portrait]
   \<or> keyword_results ql = [solar_system] \<or> keyword_results ql = [dna_structure]"
  by (simp add: keyword_results_def)

lemma subject_results_cases:
  "subject_results sl = [] \<or> subject_results sl = [shakespeare_portrait]
   \<or> subject_results sl = [dna_structure] \<or> subject_results sl = [solar_system]"
  by (simp add: subject_results_def)

lemma find_relevant_images_cases:
  "find_relevant_images query subject = [romeo_juliet_dicksee]
   \<or> find_relevant_images query subject = [romeo_juliet_waterhouse]
   \<or> find_relevant_images query subject = [shakespeare_portrait]
   \<or> find_relevant_images query subject = [solar_system]
   \<or> find_relevant_images query subject = [dna_structure]"
proof (cases "keyword_results (lower query) = []")
  case False
  then have "find_relevant_images query subject = keyword_results (lower query)"
    by (rule find_relevant_images_keyword)
  with False keyword_results_cases [of "lower query"] show ?thesis by auto
next
  case True
  show ?thesis
  proof (cases subject)
    case None
    with True show ?thesis by (simp add: find_relevant_images_def Let_def)
  next
    case (Some s)
    with True subject_results_cases [of "lower s"] show ?thesis
      by (auto simp add: find_relevant_images_def Let_def)
  qed
qed

lemma find_relevant_images_nonempty: "find_relevant_images query subject \<noteq> []"
  using find_relevant_images_cases [of query subject] by auto

text \<open>
  Claim C2. For every query and every subject (none, or any string) the resolver returns a
  list of exactly one element, and that element is an entry of the catalog: the list is
  never empty and never holds two entries.
\<close>

theorem find_relevant_images_one_entry:
  "\<exists>key entry. map_of EDUCATIONAL_IMAGES key = Some entry
     \<and> find_relevant_images query subject = [entry]"
proof -
  have k: "map_of EDUCATIONAL_IMAGES ''romeo_juliet_dicksee'' = Some romeo_juliet_dicksee"
    "map_of EDUCATIONAL_IMAGES ''romeo_juliet_waterhouse'' = Some romeo_juliet_waterhouse"
    "map_of EDUCATIONAL_IMAGES ''shakespeare_portrait'' = Some shakespeare_portrait"
    "map_of EDUCATIONAL_IMAGES ''solar_system'' = Some solar_system"
    "map_of EDUCATIONAL_IMAGES ''dna_structure'' = Some dna_structure"
    by (simp_all add: EDUCATIONAL_IMAGES_def)
  from find_relevant_images_cases [of query subject] k show ?thesis
    by metis
qed

text \<open>
  Claim C8. When the query matches none of the five keyword rules, the subject decides:
  a subject with \<^verbatim>\<open>english\<close> or \<^verbatim>\<open>literature\<close> in it (in any letter case) gives the
  Shakespeare portrait, else one with \<^verbatim>\<open>science\<close> or \<^verbatim>\<open>biology\<close> the DNA entry, else
  one with \<^verbatim>\<open>astronomy\<close> or \<^verbatim>\<open>physics\<close> the solar system entry; with no subject, or
  a subject that matches no subject rule, the result is the Shakespeare portrait.
\<close>

theorem subject_rules_and_default:
  assumes "\<not> (str_in ''dicksee'' (lower query)
              \<or> (str_in ''romeo'' (lower query) \<and> str_in ''juliet'' (lower query)))"
    and "\<not> str_in ''juliet'' (lower query)"
    and "\<not> str_in ''shakespeare'' (lower query)"
    and "\<not> (str_in ''solar'' (lower query) \<or> str_in ''planet'' (lower query))"
    and "\<not> (str_in ''dna'' (lower query) \<or> str_in ''genetic'' (lower query))"
  shows "find_relevant_images query subject =
     (case subject of
        Some s \<Rightarrow>
          if str_in ''english'' (lower s) \<or> str_in ''literature'' (lower s)
          then [shakespeare_portrait]
          else if str_in ''science'' (lower s) \<or> str_in ''biology'' (lower s)
          then [dna_structure]
          else if str_in ''astronomy'' (lower s) \<or> str_in ''physics'' (lower s)
          then [solar_system]
          else [shakespeare_portrait]
      | None \<Rightarrow> [shakespeare_portrait])"
proof -
  from assms have k: "keyword_results (lower query) = []"
    by (simp add: keyword_results_def)
  show ?thesis
  proof (cases subject)
    case None
    with k show ?thesis by (simp add: find_relevant_images_def Let_def)
  next
    case (Some s)
    show ?thesis
    proof (cases "s = []")
      case True
      with k Some show ?thesis
        by (simp add: find_relevant_images_def Let_def lower_def)
    next
      case False
      with k Some show ?thesis
        by (simp add: find_relevant_images_def Let_def subject_results_def)
    qed
  qed
qed

theorem subject_rules_and_default_witness:
  "find_relevant_images ''Tell me about cells'' (Some ''Biology 101'') = [dna_structure]
   \<and> find_relevant_images ''Tell me about cells'' (Some ''Music'') = [shakespeare_portrait]
   \<and> find_relevant_images ''Tell me about cells'' None = [shakespeare_portrait]"
proof -
  have 1: "\<not> (str_in ''dicksee'' (lower ''Tell me about cells'')
              \<or> (str_in ''romeo'' (lower ''Tell me about cells'')
                  \<and> str_in ''juliet'' (lower ''Tell me about cells'')))"
    by (simp add: lower_def lower_char_def)
  have 2: "\<not> str_in ''juliet'' (lower ''Tell me about cells'')"
    by (simp add: lower_def lower_char_def)
  have 3: "\<not> str_in ''shakespeare'' (lower ''Tell me about cells'')"
    by (simp add: lower_def lower_char_def)
  have 4: "\<not> (str_in ''solar'' (lower ''Tell me about cells'')
              \<or> str_in ''planet'' (lower ''Tell me about cells''))"
    by (simp add: lower_def lower_char_def)
  have 5: "\<not> (str_in ''dna'' (lower ''Tell me about cells'')
              \<or> str_in ''genetic'' (lower ''Tell me about cells''))"
    by (simp add: lower_def lower_char_def)
  note t = subject_rules_and_default [OF 1 2 3 4 5]
  have "find_relevant_images ''Tell me about cells'' (Some ''Biology 101'') = [dna_structure]"
    using t [of "Some ''Biology 101''"] by (simp add: lower_def lower_char_def)
  moreover
  have "find_relevant_images ''Tell me about cells'' (Some ''Music'') = [shakespeare_portrait]"
    using t [of "Some ''Music''"] by (simp add: lower_def lower_char_def)
  moreover
  have "find_relevant_images ''Tell me about cells'' None = [shakespeare_portrait]"
    using t [of None] by simp
  ultimately show ?thesis by blast
qed

section \<open>Properties of the fetch cache\<close>

text \<open>
  What the body of the \<^verbatim>\<open>try\<close> block does, by what the digest gives, what is in the
  cache and what the transport answers.
\<close>

lemma download_image_try_cases:
  obtains (key_raises) e where "h loc = Inl e"
      and "download_image_try h tr loc w = (Inl e, w)"
  | (cached) k v where "h loc = Inr k" and "map_of (image_cache w) k = Some v"
      and "download_image_try h tr loc w = (Inr (Some v), w)"
  | (raises) k e where "h loc = Inr k" and "map_of (image_cache w) k = None"
      and "tr (net_calls w) loc = Raises e"
      and "download_image_try h tr loc w = (Inl e, w\<lparr>net_calls := Suc (net_calls w)\<rparr>)"
  | (not_200) k st c where "h loc = Inr k" and "map_of (image_cache w) k = None"
      and "tr (net_calls w) loc = Response st c" and "st \<noteq> 200"
      and "download_image_try h tr loc w = (Inr None, w\<lparr>net_calls := Suc (net_calls w)\<rparr>)"
  | (stored) k c where "h loc = Inr k" and "map_of (image_cache w) k = None"
      and "tr (net_calls w) loc = Response 200 c" and "length (image_cache w) < 20"
      and "download_image_try h tr loc w =
        (Inr (Some (b64encode c)),
         w\<lparr>net_calls := Suc (net_calls w),
           image_cache := AList.update k (b64encode c) (image_cache w)\<rparr>)"
  | (full) k c where "h loc = Inr k" and "map_of (image_cache w) k = None"
      and "tr (net_calls w) loc = Response 200 c" and "\<not> length (image_cache w) < 20"
      and "download_image_try h tr loc w =
        (Inr (Some (b64encode c)), w\<lparr>net_calls := Suc (net_calls w)\<rparr>)"
proof (cases "h loc")
  case (Inl e)
  then have "download_image_try h tr loc w = (Inl e, w)"
    by (simp add: download_image_try_def)
  with Inl show ?thesis by (rule key_raises)
next
  case (Inr k)
  show ?thesis
  proof (cases "map_of (image_cache w) k")
    case (Some v)
    with Inr have "download_image_try h tr loc w = (Inr (Some v), w)"
      by (simp add: download_image_try_def)
    with Inr Some show ?thesis by (rule cached)
  next
    case None
    show ?thesis
    proof (cases "tr (net_calls w) loc")
      case (Raises e)
      with Inr None
      have "download_image_try h tr loc w = (Inl e, w\<lparr>net_calls := Suc (net_calls w)\<rparr>)"
        by (simp add: download_image_try_def)
      with Inr None Raises show ?thesis by (rule raises)
    next
      case (Response st c)
      show ?thesis
      proof (cases "st = 200")
        case False
        with Inr None Response
        have "download_image_try h tr loc w = (Inr None, w\<lparr>net_calls := Suc (net_calls w)\<rparr>)"
          by (simp add: download_image_try_def)
        with Inr None Response False show ?thesis by (rule not_200)
      next
        case True
        note st = this
        show ?thesis
        proof (cases "length (image_cache w) < 20")
          case True
          with Inr None Response st
          have "download_image_try h tr loc w =
            (Inr (Some (b64encode c)),
             w\<lparr>net_calls := Suc (net_calls w),
               image_cache := AList.update k (b64encode c) (image_cache w)\<rparr>)"
            by (simp add: download_image_try_def Let_def)
          with Inr None Response st True show ?thesis by (auto intro: stored)
        next
          case False
          with Inr None Response st
          have "download_image_try h tr loc w =
            (Inr (Some (b64encode c)), w\<lparr>net_calls := Suc (net_calls w)\<rparr>)"
            by (simp add: download_image_try_def Let_def)
          with Inr None Response st False show ?thesis by (auto intro: full)
        qed
      qed
    qed
  qed
qed

text \<open>What the call does with the outcome of the \<^verbatim>\<open>try\<close> block.\<close>

lemma download_image_returns:
  "download_image_try h tr loc w = (Inr r, w') \<Longrightarrow> download_image h tr pr loc w = (Inr r, w')"
  by (simp add: download_image_def)

lemma download_image_caught:
  "download_image_try h tr loc w = (Inl e, w') \<Longrightarrow> is_Exception e \<Longrightarrow>
     pr (error_message loc e) = None \<Longrightarrow> download_image h tr pr loc w = (Inr None, w')"
  by (simp add: download_image_def)

lemma download_image_print_raises:
  "download_image_try h tr loc w = (Inl e, w') \<Longrightarrow> is_Exception e \<Longrightarrow>
     pr (error_message loc e) = Some e' \<Longrightarrow> download_image h tr pr loc w = (Inl e', w')"
  by (simp add: download_image_def)

lemma download_image_uncaught:
  "download_image_try h tr loc w = (Inl e, w') \<Longrightarrow> \<not> is_Exception e \<Longrightarrow>
     download_image h tr pr loc w = (Inl e, w')"
  by (simp add: download_image_def)

lemma download_image_world:
  "snd (download_image h tr pr loc w) = snd (download_image_try h tr loc w)"
  by (cases "download_image_try h tr loc w")
    (auto simp: download_image_def split: sum.splits option.splits)

lemma download_image_Some:
  "fst (download_image h tr pr loc w) = Inr (Some v)
     \<longleftrightarrow> fst (download_image_try h tr loc w) = Inr (Some v)"
  by (cases "download_image_try h tr loc w")
    (auto simp: download_image_def split: sum.splits option.splits)

lemma download_image_None:
  "fst (download_image h tr pr loc w) = Inr None
     \<longleftrightarrow> fst (download_image_try h tr loc w) = Inr None
          \<or> (\<exists>e. fst (download_image_try h tr loc w) = Inl e \<and> is_Exception e
                \<and> pr (error_message loc e) = None)"
  by (cases "download_image_try h tr loc w")
    (auto simp: download_image_def split: sum.splits option.splits)

lemma download_image_Inl:
  "fst (download_image h tr pr loc w) = Inl e'
     \<longleftrightarrow> (fst (download_image_try h tr loc w) = Inl e' \<and> \<not> is_Exception e')
          \<or> (\<exists>e. fst (download_image_try h tr loc w) = Inl e \<and> is_Exception e
                \<and> pr (error_message loc e) = Some e')"
  by (cases "download_image_try h tr loc w")
    (auto simp: download_image_def split: sum.splits option.splits)

lemma download_image_cached:
  "h loc = Inr k \<Longrightarrow> map_of (image_cache w) k = Some v \<Longrightarrow>
     download_image h tr pr loc w = (Inr (Some v), w)"
  by (simp add: download_image_def download_image_try_def)

text \<open>The cache after a call: as before, or with the one new record.\<close>

lemma download_image_cache:
  "image_cache (snd (download_image h tr pr loc w)) = image_cache w
   \<or> (\<exists>k c. h loc = Inr k \<and> map_of (image_cache w) k = None
         \<and> length (image_cache w) < 20 \<and> tr (net_calls w) loc = Response 200 c
         \<and> fst (download_image h tr pr loc w) = Inr (Some (b64encode c))
         \<and> image_cache (snd (download_image h tr pr loc w))
             = AList.update k (b64encode c) (image_cache w))"
proof (cases rule: download_image_try_cases [of h loc tr w])
  case (stored k c)
  then show ?thesis
    by (simp add: download_image_world download_image_Some)
qed (simp_all add: download_image_world)

text \<open>The runs of the examples.\<close>

lemma reachable_downloads: "reachable h w \<Longrightarrow> reachable h (downloads h tr pr locs w)"
  by (induction locs arbitrary: w) (auto intro: reachable.download)

lemma download_image_plain_eval:
  "download_image plain_key (always (Response 200 c)) pr loc \<lparr>image_cache = al, net_calls = n\<rparr> =
    (case map_of al loc of
       Some v \<Rightarrow> (Inr (Some v), \<lparr>image_cache = al, net_calls = n\<rparr>)
     | None \<Rightarrow>
         (Inr (Some (b64encode c)),
          \<lparr>image_cache = (if length al < 20 then AList.update loc (b64encode c) al else al),
           net_calls = Suc n\<rparr>))"
  by (simp add: download_image_def download_image_try_def plain_key_def always_def Let_def
      split: option.split)

lemma full_world_eq:
  "full_world =
     \<lparr>image_cache = map (\<lambda>c. (''https://example.org/'' @ [c], ''TQ=='')) ''abcdefghijklmnopqrst'',
      net_calls = 20\<rparr>"
  by (simp add: full_world_def twenty_locations_def initial_world_def download_image_plain_eval
      b64_char_def)

lemma full_world_reachable: "reachable plain_key full_world"
  unfolding full_world_def by (rule reachable_downloads) (rule reachable.start)

lemmas download_eval =
  download_image_def download_image_try_def plain_key_def always_def prints_def closed_pipe_def
  timed_out_def keyboard_interrupt_def broken_pipe_def error_message_def initial_world_def
  b64_char_def Let_def

text \<open>
  Claim C7, as the code has it. \<^verbatim>\<open>download_image\<close> returns \<^verbatim>\<open>None\<close> on every
  failure that the clause of line 68 catches and reports: when the body of the \<^verbatim>\<open>try\<close>
  block raises an instance of \<^verbatim>\<open>Exception\<close> (a time-out or a transport error of
  \<^verbatim>\<open>requests.get\<close>, a location that cannot be encoded) and the message is printed, and
  when the status code is not 200. It raises to its caller in two cases only: the
  \<^verbatim>\<open>try\<close> block raised an exception that is not an instance of \<^verbatim>\<open>Exception\<close>, or
  the print of line 69 raised. \<^verbatim>\<open>None\<close> is returned on such a failure only.
\<close>

theorem download_image_failure_is_None:
  "(fst (download_image_try h tr loc w) = Inl e \<and> is_Exception e
      \<and> pr (error_message loc e) = None \<longrightarrow>
        fst (download_image h tr pr loc w) = Inr None)
   \<and> (h loc = Inr k \<and> map_of (image_cache w) k = None \<and> tr (net_calls w) loc = Raises e
      \<and> is_Exception e \<and> pr (error_message loc e) = None \<longrightarrow>
        fst (download_image h tr pr loc w) = Inr None)
   \<and> (h loc = Inr k \<and> map_of (image_cache w) k = None
      \<and> tr (net_calls w) loc = Response st c \<and> st \<noteq> 200 \<longrightarrow>
        fst (download_image h tr pr loc w) = Inr None)
   \<and> (fst (download_image h tr pr loc w) = Inl e' \<longrightarrow>
        (fst (download_image_try h tr loc w) = Inl e' \<and> \<not> is_Exception e')
        \<or> (\<exists>e0. fst (download_image_try h tr loc w) = Inl e0 \<and> is_Exception e0
              \<and> pr (error_message loc e0) = Some e'))
   \<and> (fst (download_image h tr pr loc w) = Inr None \<longrightarrow>
        (\<exists>e0. h loc = Inl e0 \<and> is_Exception e0)
        \<or> (\<exists>k0. h loc = Inr k0 \<and> map_of (image_cache w) k0 = None
              \<and> ((\<exists>e0. tr (net_calls w) loc = Raises e0 \<and> is_Exception e0)
                 \<or> (\<exists>st0 c0. tr (net_calls w) loc = Response st0 c0 \<and> st0 \<noteq> 200))))"
proof (intro conjI impI)
  assume "fst (download_image_try h tr loc w) = Inl e \<and> is_Exception e
      \<and> pr (error_message loc e) = None"
  then show "fst (download_image h tr pr loc w) = Inr None"
    unfolding download_image_None by blast
next
  assume a: "h loc = Inr k \<and> map_of (image_cache w) k = None \<and> tr (net_calls w) loc = Raises e
      \<and> is_Exception e \<and> pr (error_message loc e) = None"
  then have "fst (download_image_try h tr loc w) = Inl e"
    by (simp add: download_image_try_def)
  with a show "fst (download_image h tr pr loc w) = Inr None"
    unfolding download_image_None by blast
next
  assume "h loc = Inr k \<and> map_of (image_cache w) k = None
      \<and> tr (net_calls w) loc = Response st c \<and> st \<noteq> 200"
  then have "fst (download_image_try h tr loc w) = Inr None"
    by (simp add: download_image_try_def)
  then show "fst (download_image h tr pr loc w) = Inr None"
    unfolding download_image_None by blast
next
  assume "fst (download_image h tr pr loc w) = Inl e'"
  then show "(fst (download_image_try h tr loc w) = Inl e' \<and> \<not> is_Exception e')
        \<or> (\<exists>e0. fst (download_image_try h tr loc w) = Inl e0 \<and> is_Exception e0
              \<and> pr (error_message loc e0) = Some e')"
    unfolding download_image_Inl .
next
  assume "fst (download_image h tr pr loc w) = Inr None"
  then have n: "fst (download_image_try h tr loc w) = Inr None
     \<or> (\<exists>e. fst (download_image_try h tr loc w) = Inl e \<and> is_Exception e)"
    unfolding download_image_None by blast
  show "(\<exists>e0. h loc = Inl e0 \<and> is_Exception e0)
        \<or> (\<exists>k0. h loc = Inr k0 \<and> map_of (image_cache w) k0 = None
              \<and> ((\<exists>e0. tr (net_calls w) loc = Raises e0 \<and> is_Exception e0)
                 \<or> (\<exists>st0 c0. tr (net_calls w) loc = Response st0 c0 \<and> st0 \<noteq> 200)))"
    using n by (cases rule: download_image_try_cases [of h loc tr w]) auto
qed

theorem download_image_failure_is_None_witness:
  "fst (download_image_try plain_key times_out loc_a initial_world) = Inl timed_out
   \<and> is_Exception timed_out
   \<and> fst (download_image plain_key times_out prints loc_a initial_world) = Inr None
   \<and> fst (download_image plain_key (always (Response 503 [])) prints loc_a initial_world)
       = Inr None
   \<and> fst (download_image plain_key times_out closed_pipe loc_a initial_world) = Inl broken_pipe
   \<and> closed_pipe (error_message loc_a timed_out) = Some broken_pipe"
proof -
  have 1: "fst (download_image_try plain_key times_out loc_a initial_world) = Inl timed_out"
    by (simp add: download_image_try_def plain_key_def always_def initial_world_def)
  have 2: "is_Exception timed_out"
    by (simp add: timed_out_def)
  have 3: "prints (error_message loc_a timed_out) = None"
    by (simp add: prints_def)
  have 4: "plain_key loc_a = Inr loc_a" "map_of (image_cache initial_world) loc_a = None"
    "times_out (net_calls initial_world) loc_a = Raises timed_out"
    "always (Response 503 []) (net_calls initial_world) loc_a = Response 503 []"
    by (simp_all add: plain_key_def initial_world_def always_def)
  from download_image_failure_is_None
    [of plain_key times_out loc_a initial_world timed_out prints loc_a] 1 2 3 4
  have 5: "fst (download_image plain_key times_out prints loc_a initial_world) = Inr None"
    by blast
  from download_image_failure_is_None
    [of plain_key "always (Response 503 [])" loc_a initial_world _ prints loc_a 503 "[]"] 4
  have 6: "fst (download_image plain_key (always (Response 503 [])) prints loc_a initial_world)
       = Inr None"
    by simp
  have 7: "fst (download_image plain_key times_out closed_pipe loc_a initial_world)
      = Inl broken_pipe"
    by (simp add: download_eval)
  have 8: "broken_pipe \<noteq> timed_out"
    by (simp add: broken_pipe_def timed_out_def)
  from download_image_failure_is_None
    [of plain_key times_out loc_a initial_world _ closed_pipe _ _ _ broken_pipe] 7 1 8
  have 9: "closed_pipe (error_message loc_a timed_out) = Some broken_pipe"
    by auto
  from 1 2 5 6 7 9 show ?thesis by blast
qed

text \<open>
  The claim as stated, that the call never raises whatever the exception, fails: a
  \<^verbatim>\<open>KeyboardInterrupt\<close> raised while \<^verbatim>\<open>requests.get\<close> waits is not caught by
  \<^verbatim>\<open>except Exception\<close> and reaches the caller, and so does the error of a print that
  fails after a time-out.
\<close>

theorem download_image_raises_counterexample:
  "fst (download_image plain_key interrupted prints loc_a initial_world) = Inl keyboard_interrupt
   \<and> fst (download_image plain_key times_out closed_pipe loc_a initial_world) = Inl broken_pipe"
  by (simp add: download_eval)

text \<open>
  Claim C9. When \<^verbatim>\<open>download_image\<close> returns \<^verbatim>\<open>None\<close> the cache after the call is
  the cache before it; the cache changes only in a call that got a response with status
  code 200.
\<close>

theorem failed_download_keeps_cache:
  "(fst (download_image h tr pr loc w) = Inr None \<longrightarrow>
      image_cache (snd (download_image h tr pr loc w)) = image_cache w)
   \<and> (image_cache (snd (download_image h tr pr loc w)) \<noteq> image_cache w \<longrightarrow>
      (\<exists>c. tr (net_calls w) loc = Response 200 c))"
  using download_image_cache [of h tr pr loc w] by auto

theorem failed_download_keeps_cache_witness:
  "fst (download_image plain_key times_out prints loc_u full_world) = Inr None
   \<and> image_cache (snd (download_image plain_key times_out prints loc_u full_world))
       = image_cache full_world
   \<and> image_cache (snd (download_image plain_key serves_M prints loc_a initial_world))
       \<noteq> image_cache initial_world
   \<and> (\<exists>c. serves_M (net_calls initial_world) loc_a = Response 200 c)"
proof -
  have 1: "fst (download_image plain_key times_out prints loc_u full_world) = Inr None"
    by (simp add: download_image_def download_image_try_def plain_key_def always_def
        prints_def timed_out_def full_world_eq)
  have 2: "image_cache (snd (download_image plain_key serves_M prints loc_a
      initial_world)) \<noteq> image_cache initial_world"
    by (simp add: download_eval)
  from failed_download_keeps_cache [of plain_key times_out prints loc_u full_world] 1
  have 3: "image_cache (snd (download_image plain_key times_out prints loc_u full_world))
       = image_cache full_world"
    by blast
  from failed_download_keeps_cache [of plain_key serves_M prints loc_a initial_world] 2
  have 4: "\<exists>c. serves_M (net_calls initial_world) loc_a = Response 200 c"
    by blast
  from 1 2 3 4 show ?thesis by blast
qed

text \<open>
  Claim C3, as the code has it. A second call with the same location is served from the
  cache, whatever the transport would answer, when the first call returned data and either
  the fingerprint was cached already or the cache held fewer than 20 records: it returns
  the same value and leaves the state, and so the count of network calls, as it is. The
  two calls make at most one network call together.
\<close>

theorem repeated_download_served_from_cache:
  assumes "download_image h tr pr loc w = (Inr (Some v), w1)"
    and "(\<exists>k. h loc = Inr k \<and> map_of (image_cache w) k \<noteq> None)
         \<or> length (image_cache w) < 20"
  shows "download_image h tr' pr' loc w1 = (Inr (Some v), w1)
    \<and> net_calls w1 \<le> Suc (net_calls w)"
proof -
  from assms(1) have t: "download_image_try h tr loc w = (Inr (Some v), w1)"
    using download_image_Some [of h tr pr loc w v] download_image_world [of h tr pr loc w]
    by (cases "download_image_try h tr loc w") auto
  show ?thesis
  proof (cases rule: download_image_try_cases [of h loc tr w])
    case (cached k v')
    with t show ?thesis by (auto simp: download_image_cached)
  next
    case (stored k c)
    with t have "map_of (image_cache w1) k = Some v" and "net_calls w1 = Suc (net_calls w)"
      by (auto simp: update_conv')
    with stored(1) show ?thesis by (simp add: download_image_cached)
  qed (use t assms(2) in auto)
qed

theorem repeated_download_served_from_cache_witness:
  "download_image plain_key serves_M prints loc_a initial_world
     = (Inr (Some ''TQ==''), \<lparr>image_cache = [(loc_a, ''TQ=='')], net_calls = 1\<rparr>)
   \<and> length (image_cache initial_world) < 20
   \<and> download_image plain_key times_out closed_pipe loc_a
         \<lparr>image_cache = [(loc_a, ''TQ=='')], net_calls = 1\<rparr>
       = (Inr (Some ''TQ==''), \<lparr>image_cache = [(loc_a, ''TQ=='')], net_calls = 1\<rparr>)
   \<and> net_calls \<lparr>image_cache = [(loc_a, ''TQ=='')], net_calls = 1\<rparr>
       \<le> Suc (net_calls initial_world)"
proof -
  have 1: "download_image plain_key serves_M prints loc_a initial_world
     = (Inr (Some ''TQ==''), \<lparr>image_cache = [(loc_a, ''TQ=='')], net_calls = 1\<rparr>)"
    by (simp add: download_eval)
  have 3: "length (image_cache initial_world) < 20"
    by (simp add: initial_world_def)
  then have 2: "(\<exists>k. plain_key loc_a = Inr k \<and> map_of (image_cache initial_world) k \<noteq> None)
        \<or> length (image_cache initial_world) < 20"
    by blast
  from repeated_download_served_from_cache [OF 1 2, of times_out closed_pipe] 1 3
  show ?thesis by blast
qed

text \<open>
  Without those conditions the claim fails: after a first call that got status 404 nothing
  is cached, and the second call with the same location goes to the network again.
\<close>

theorem repeated_download_counterexample:
  "net_calls initial_world = 0
   \<and> fst (download_image plain_key (always (Response 404 [])) prints loc_a initial_world)
       = Inr None
   \<and> net_calls (snd (download_image plain_key (always (Response 404 [])) prints loc_a
        (snd (download_image plain_key (always (Response 404 [])) prints loc_a
          initial_world)))) = 2"
  by (simp add: download_eval)

text \<open>The cache stays well-formed and within its capacity, and keeps every record.\<close>

lemma length_update_new:
  "map_of al k = None \<Longrightarrow> length (AList.update k v al) = Suc (length al)"
  by (induction al) (auto split: if_splits)

lemma download_image_cache_ok:
  assumes "cache_ok w"
  shows "cache_ok (snd (download_image h tr pr loc w))"
  using download_image_cache [of h tr pr loc w] assms
  by (auto simp: cache_ok_def distinct_update length_update_new)

lemma download_image_keeps:
  assumes "map_of (image_cache w) k = Some v"
  shows "map_of (image_cache (snd (download_image h tr pr loc w))) k = Some v"
  using download_image_cache [of h tr pr loc w] assms
  by (auto simp: update_conv')

lemma process_images_world_Cons:
  "snd (process_images h tr pr (img # imgs) w) = snd (download_image h tr pr (url img) w)
   \<or> snd (process_images h tr pr (img # imgs) w)
       = snd (process_images h tr pr imgs (snd (download_image h tr pr (url img) w)))"
  by (auto split: prod.splits sum.splits)

lemma process_images_cache_ok:
  "cache_ok w \<Longrightarrow> cache_ok (snd (process_images h tr pr imgs w))"
proof (induction imgs arbitrary: w)
  case Nil
  then show ?case by simp
next
  case (Cons img imgs)
  from Cons.prems have d: "cache_ok (snd (download_image h tr pr (url img) w))"
    by (rule download_image_cache_ok)
  then have "cache_ok (snd (process_images h tr pr imgs
      (snd (download_image h tr pr (url img) w))))"
    by (rule Cons.IH)
  with d process_images_world_Cons [of h tr pr img imgs w] show ?case
    by auto
qed

lemma process_images_keeps:
  "map_of (image_cache w) k = Some v \<Longrightarrow>
     map_of (image_cache (snd (process_images h tr pr imgs w))) k = Some v"
proof (induction imgs arbitrary: w)
  case Nil
  then show ?case by simp
next
  case (Cons img imgs)
  from Cons.prems
  have d: "map_of (image_cache (snd (download_image h tr pr (url img) w))) k = Some v"
    by (rule download_image_keeps)
  then have "map_of (image_cache (snd (process_images h tr pr imgs
      (snd (download_image h tr pr (url img) w))))) k = Some v"
    by (rule Cons.IH)
  with d process_images_world_Cons [of h tr pr img imgs w] show ?case
    by auto
qed

lemma fetch_image_try_world:
  "snd (fetch_image_try h tr pr rq w) = w
   \<or> (\<exists>selected. snd (fetch_image_try h tr pr rq w) = snd (process_images h tr pr selected w))"
  by (auto simp: fetch_image_try_def split: sum.splits prod.splits) (metis snd_conv)+

lemma fetch_image_world:
  "snd (fetch_image h tr pr rq w) = snd (fetch_image_try h tr pr rq w)"
  by (cases "fetch_image_try h tr pr rq w") (auto simp: fetch_image_def split: sum.splits)

lemma fetch_image_cache_ok: "cache_ok w \<Longrightarrow> cache_ok (snd (fetch_image h tr pr rq w))"
  using fetch_image_try_world [of h tr pr rq w] process_images_cache_ok [of w h tr pr]
  by (auto simp: fetch_image_world)

lemma fetch_image_keeps:
  "map_of (image_cache w) k = Some v \<Longrightarrow>
     map_of (image_cache (snd (fetch_image h tr pr rq w))) k = Some v"
  using fetch_image_try_world [of h tr pr rq w] process_images_keeps [of w k v h tr pr]
  by (auto simp: fetch_image_world)

lemma reachable_cache_ok: "reachable h w \<Longrightarrow> cache_ok w"
proof (induction rule: reachable.induct)
  case start
  show ?case by (simp add: cache_ok_def initial_world_def)
next
  case (download w tr pr loc)
  then show ?case by (simp add: download_image_cache_ok)
next
  case (request w tr pr rq)
  then show ?case by (simp add: fetch_image_cache_ok)
qed

text \<open>
  Claim C4. In every reachable state the cache has distinct keys and at most 20 records.
  With 20 records in it, a fetch of a location that is not cached and that gets status 200
  returns the encoded data and leaves the cache as it is, so that the next fetch of that
  location calls the network once more. No call of \<^verbatim>\<open>download_image\<close> and no request
  removes or changes a record that is in the cache.
\<close>

theorem cache_bounded_and_never_evicted:
  "(reachable h w \<longrightarrow> distinct (map fst (image_cache w)) \<and> length (image_cache w) \<le> 20)
   \<and> (length (image_cache w) = 20 \<and> h loc = Inr key \<and> map_of (image_cache w) key = None
        \<and> tr (net_calls w) loc = Response 200 c \<longrightarrow>
      download_image h tr pr loc w
        = (Inr (Some (b64encode c)), w\<lparr>net_calls := Suc (net_calls w)\<rparr>)
      \<and> net_calls (snd (download_image h tr' pr' loc (w\<lparr>net_calls := Suc (net_calls w)\<rparr>)))
          = Suc (Suc (net_calls w)))
   \<and> (map_of (image_cache w) k = Some v \<longrightarrow>
      map_of (image_cache (snd (download_image h tr pr loc w))) k = Some v
      \<and> map_of (image_cache (snd (fetch_image h tr pr rq w))) k = Some v)"
proof (intro conjI impI)
  assume "reachable h w"
  then have "cache_ok w" by (rule reachable_cache_ok)
  then show "distinct (map fst (image_cache w))" and "length (image_cache w) \<le> 20"
    by (simp_all add: cache_ok_def)
next
  assume a: "length (image_cache w) = 20 \<and> h loc = Inr key \<and> map_of (image_cache w) key = None
    \<and> tr (net_calls w) loc = Response 200 c"
  then show "download_image h tr pr loc w =
      (Inr (Some (b64encode c)), w\<lparr>net_calls := Suc (net_calls w)\<rparr>)"
    by (simp add: download_image_def download_image_try_def)
  let ?w1 = "w\<lparr>net_calls := Suc (net_calls w)\<rparr>"
  from a have "map_of (image_cache ?w1) key = None" and "h loc = Inr key" by simp_all
  then have "net_calls (snd (download_image_try h tr' loc ?w1)) = Suc (Suc (net_calls w))"
    by (cases rule: download_image_try_cases [of h loc tr' ?w1]) simp_all
  then show "net_calls (snd (download_image h tr' pr' loc ?w1)) = Suc (Suc (net_calls w))"
    by (simp add: download_image_world)
next
  assume "map_of (image_cache w) k = Some v"
  then show "map_of (image_cache (snd (download_image h tr pr loc w))) k = Some v"
    and "map_of (image_cache (snd (fetch_image h tr pr rq w))) k = Some v"
    by (simp_all add: download_image_keeps fetch_image_keeps)
qed

theorem cache_bounded_and_never_evicted_witness:
  "reachable plain_key full_world
   \<and> distinct (map fst (image_cache full_world))
   \<and> length (image_cache full_world) = 20
   \<and> plain_key loc_u = Inr loc_u
   \<and> map_of (image_cache full_world) loc_u = None
   \<and> download_image plain_key serves_M prints loc_u full_world
       = (Inr (Some ''TQ==''), full_world\<lparr>net_calls := 21\<rparr>)
   \<and> net_calls (snd (download_image plain_key serves_M prints loc_u
        (full_world\<lparr>net_calls := 21\<rparr>))) = 22
   \<and> map_of (image_cache full_world) loc_a = Some ''TQ==''
   \<and> map_of (image_cache (snd (download_image plain_key serves_M prints loc_u
        full_world))) loc_a = Some ''TQ==''
   \<and> map_of (image_cache (snd (fetch_image plain_key serves_M prints
        (Inr (JObj [])) full_world))) loc_a = Some ''TQ=='' "
proof -
  note t = cache_bounded_and_never_evicted
    [of plain_key full_world loc_u loc_u serves_M "[0x4d]" prints
        serves_M prints loc_a "''TQ==''" "Inr (JObj [])"]
  have 1: "reachable plain_key full_world"
    by (rule full_world_reachable)
  have 2: "length (image_cache full_world) = 20"
    by (simp add: full_world_eq)
  have 3: "plain_key loc_u = Inr loc_u" "map_of (image_cache full_world) loc_u = None"
    by (simp_all add: full_world_eq plain_key_def)
  have 4: "serves_M (net_calls full_world) loc_u = Response 200 [0x4d]"
    by (simp add: always_def)
  have 5: "map_of (image_cache full_world) loc_a = Some ''TQ==''"
    by (simp add: full_world_eq)
  have 6: "net_calls full_world = 20"
    by (simp add: full_world_eq)
  from t 1 2 3 4 5 show ?thesis
    by (simp add: 6 b64_char_def)
qed

section \<open>Properties of the request handler\<close>

text \<open>
  The resolver gives one entry whenever it returns, so the branch of line 121 is never
  taken, and a request whose \<^verbatim>\<open>try\<close> block returns is answered with
  \<^verbatim>\<open>success: true\<close> and the results of the loop.
\<close>

lemma find_relevant_images_single: "\<exists>e. find_relevant_images query subject = [e]"
  using find_relevant_images_cases [of query subject] by auto

lemma call_find_relevant_images_single:
  assumes "call_find_relevant_images qv sv = Inr imgs"
  shows "\<exists>e. imgs = [e]"
proof (cases qv)
  case (JStr q)
  show ?thesis
  proof (cases "keyword_results (lower q) = [] \<and> truthy sv")
    case False
    with assms JStr have "imgs = find_relevant_images q None"
      by (auto simp: call_find_relevant_images_def)
    then show ?thesis using find_relevant_images_single by simp
  next
    case True
    with assms JStr obtain s where "imgs = find_relevant_images q (Some s)"
      by (cases sv) (auto simp: call_find_relevant_images_def)
    then show ?thesis using find_relevant_images_single by simp
  qed
qed (use assms in \<open>simp_all add: call_find_relevant_images_def\<close>)

lemma call_find_relevant_images_typed:
  assumes "sv = JNull \<or> (\<exists>s. sv = JStr s)"
  shows "\<exists>e. call_find_relevant_images (JStr q) sv = Inr [e]"
proof -
  from assms have "\<exists>imgs. call_find_relevant_images (JStr q) sv = Inr imgs"
    by (auto simp: call_find_relevant_images_def)
  then show ?thesis using call_find_relevant_images_single by blast
qed

lemma slice_upto_int_nonpositive: "n \<le> 0 \<Longrightarrow> slice_upto_int [e] n = []"
  by (simp add: slice_upto_int_def)

lemma processed_image_eq:
  "processed_image img image_data =
     JObj [(''url'', JStr (if image_data = None \<or> image_data = Some [] then url img else [])),
           (''data'', JStr (case image_data of Some d \<Rightarrow> d | None \<Rightarrow> [])),
           (''title'', JStr (title img)),
           (''educational_caption'', JStr (caption img)),
           (''alt_text'', JStr (alt_text img)),
           (''source'', JStr ''wikimedia'')]"
  by (cases image_data) (simp_all add: processed_image_def)

lemma call_find_relevant_images_resolved:
  assumes "call_find_relevant_images qv sv = Inr imgs"
  shows "\<exists>q s. imgs = find_relevant_images q s"
proof (cases qv)
  case (JStr q)
  show ?thesis
  proof (cases "keyword_results (lower q) = [] \<and> truthy sv")
    case False
    with assms JStr have "imgs = find_relevant_images q None"
      by (auto simp: call_find_relevant_images_def)
    then show ?thesis by blast
  next
    case True
    with assms JStr obtain s where "imgs = find_relevant_images q (Some s)"
      by (cases sv) (auto simp: call_find_relevant_images_def)
    then show ?thesis by blast
  qed
qed (use assms in \<open>simp_all add: call_find_relevant_images_def\<close>)

lemma slice_upto_single:
  assumes "slice_upto [e] count = Inr selected"
  shows "selected = [] \<or> selected = [e]"
proof -
  have "take n [e] = [] \<or> take n [e] = [e]" for n
    by (cases n) simp_all
  with assms show ?thesis
    by (cases count) (auto simp: slice_upto_def slice_upto_int_def split: if_splits)
qed

lemma fetch_image_try_returns:
  assumes "fetch_image_try h tr pr rq w = (Inr resp, w')"
  shows "\<exists>selected q s processed.
          (selected = [] \<or> selected = find_relevant_images q s)
          \<and> process_images h tr pr selected w = (Inr processed, w')
          \<and> resp = JObj [(''success'', JBool True), (''images'', JArr processed)]"
proof -
  from assms obtain data where rq: "rq = Inr data"
    by (cases rq) (simp_all add: fetch_image_try_def)
  from assms rq obtain query where q: "dict_get data ''query'' (JStr []) = Inr query"
    by (cases "dict_get data ''query'' (JStr [])") (simp_all add: fetch_image_try_def)
  from assms rq q obtain subject where s: "dict_get data ''subject'' JNull = Inr subject"
    by (cases "dict_get data ''subject'' JNull") (simp_all add: fetch_image_try_def)
  from assms rq q s obtain count where c: "dict_get data ''count'' (JInt 1) = Inr count"
    by (cases "dict_get data ''count'' (JInt 1)") (simp_all add: fetch_image_try_def)
  from assms rq q s c obtain images where i: "call_find_relevant_images query subject = Inr images"
    by (cases "call_find_relevant_images query subject") (simp_all add: fetch_image_try_def)
  then have ne: "images \<noteq> []"
    using call_find_relevant_images_single by blast
  from assms rq q s c i ne obtain selected where sl: "slice_upto images count = Inr selected"
    by (cases "slice_upto images count") (simp_all add: fetch_image_try_def)
  from i obtain e where e: "images = [e]"
    using call_find_relevant_images_single by blast
  from i obtain q' s' where r: "images = find_relevant_images q' s'"
    using call_find_relevant_images_resolved by blast
  from sl e r have "selected = [] \<or> selected = find_relevant_images q' s'"
    using slice_upto_single by metis
  moreover from assms rq q s c i ne sl
  have "\<exists>processed. process_images h tr pr selected w = (Inr processed, w')
    \<and> resp = JObj [(''success'', JBool True), (''images'', JArr processed)]"
    by (auto simp: fetch_image_try_def split: prod.splits sum.splits)
  ultimately show ?thesis by blast
qed

text \<open>The definitions a concrete request is evaluated with.\<close>

lemmas eval_defs =
  fetch_image_def fetch_image_try_def dict_get_def call_find_relevant_images_def
  keyword_results_def subject_results_def find_relevant_images_def lower_def lower_char_def
  slice_upto_def slice_upto_int_def processed_image_def download_eval

text \<open>
  Claim C5, as the code has it. The result assembled for an entry in the loop has
  \<^verbatim>\<open>url\<close> equal to the entry's location when the fetch returned \<^verbatim>\<open>None\<close> or the
  empty string, and empty otherwise; \<^verbatim>\<open>data\<close> equal to the fetched text, empty on
  \<^verbatim>\<open>None\<close>; title, caption and alt text copied from the entry; and \<^verbatim>\<open>source\<close>
  equal to \<^verbatim>\<open>wikimedia\<close>. (When the fetch raises there is no result: the exception
  goes on.) The images of a request whose \<^verbatim>\<open>try\<close> block returns are the results of
  that loop over the selected entries, which are the resolved entries or none.
\<close>

theorem processed_image_fields:
  "process_images h tr pr (img # imgs) w =
     (case download_image h tr pr (url img) w of
        (Inl e, w1) \<Rightarrow> (Inl e, w1)
      | (Inr image_data, w1) \<Rightarrow>
          (case process_images h tr pr imgs w1 of
             (Inl e, w2) \<Rightarrow> (Inl e, w2)
           | (Inr rest, w2) \<Rightarrow>
               (Inr (JObj [(''url'', JStr (if image_data = None \<or> image_data = Some []
                                          then url img else [])),
                           (''data'', JStr (case image_data of Some d \<Rightarrow> d | None \<Rightarrow> [])),
                           (''title'', JStr (title img)),
                           (''educational_caption'', JStr (caption img)),
                           (''alt_text'', JStr (alt_text img)),
                           (''source'', JStr ''wikimedia'')]
                     # rest), w2)))
   \<and> (fetch_image_try h tr pr rq w = (Inr resp, w') \<longrightarrow>
        (\<exists>selected q s processed.
           (selected = [] \<or> selected = find_relevant_images q s)
           \<and> process_images h tr pr selected w = (Inr processed, w')
           \<and> resp = JObj [(''success'', JBool True), (''images'', JArr processed)]))"
proof
  show "process_images h tr pr (img # imgs) w =
     (case download_image h tr pr (url img) w of
        (Inl e, w1) \<Rightarrow> (Inl e, w1)
      | (Inr image_data, w1) \<Rightarrow>
          (case process_images h tr pr imgs w1 of
             (Inl e, w2) \<Rightarrow> (Inl e, w2)
           | (Inr rest, w2) \<Rightarrow>
               (Inr (JObj [(''url'', JStr (if image_data = None \<or> image_data = Some []
                                          then url img else [])),
                           (''data'', JStr (case image_data of Some d \<Rightarrow> d | None \<Rightarrow> [])),
                           (''title'', JStr (title img)),
                           (''educational_caption'', JStr (caption img)),
                           (''alt_text'', JStr (alt_text img)),
                           (''source'', JStr ''wikimedia'')]
                     # rest), w2)))"
    by (simp add: processed_image_eq split: prod.split sum.split)
  show "fetch_image_try h tr pr rq w = (Inr resp, w') \<longrightarrow>
        (\<exists>selected q s processed.
           (selected = [] \<or> selected = find_relevant_images q s)
           \<and> process_images h tr pr selected w = (Inr processed, w')
           \<and> resp = JObj [(''success'', JBool True), (''images'', JArr processed)])"
    using fetch_image_try_returns [of h tr pr rq w resp w'] by blast
qed

theorem processed_image_fields_witness:
  "fetch_image_try plain_key serves_M prints
      (Inr (JObj [(''query'', JStr ''Shakespeare'')])) initial_world
    = (Inr (JObj [(''success'', JBool True),
                 (''images'', JArr [JObj [(''url'', JStr []),
                    (''data'', JStr ''TQ==''),
                    (''title'', JStr ''William Shakespeare Portrait''),
                    (''educational_caption'', JStr ''William Shakespeare - The Bard''),
                    (''alt_text'', JStr ''Portrait of William Shakespeare''),
                    (''source'', JStr ''wikimedia'')]])]),
           \<lparr>image_cache = [(url shakespeare_portrait, ''TQ=='')], net_calls = 1\<rparr>)
   \<and> (\<exists>selected q s processed.
        (selected = [] \<or> selected = find_relevant_images q s)
        \<and> process_images plain_key serves_M prints selected initial_world
            = (Inr processed,
               \<lparr>image_cache = [(url shakespeare_portrait, ''TQ=='')], net_calls = 1\<rparr>)
        \<and> JObj [(''success'', JBool True),
              (''images'', JArr [JObj [(''url'', JStr []),
                 (''data'', JStr ''TQ==''),
                 (''title'', JStr ''William Shakespeare Portrait''),
                 (''educational_caption'', JStr ''William Shakespeare - The Bard''),
                 (''alt_text'', JStr ''Portrait of William Shakespeare''),
                 (''source'', JStr ''wikimedia'')]])]
        = JObj [(''success'', JBool True), (''images'', JArr processed)])"
proof -
  have 1: "fetch_image_try plain_key serves_M prints
      (Inr (JObj [(''query'', JStr ''Shakespeare'')])) initial_world
    = (Inr (JObj [(''success'', JBool True),
                 (''images'', JArr [JObj [(''url'', JStr []),
                    (''data'', JStr ''TQ==''),
                    (''title'', JStr ''William Shakespeare Portrait''),
                    (''educational_caption'', JStr ''William Shakespeare - The Bard''),
                    (''alt_text'', JStr ''Portrait of William Shakespeare''),
                    (''source'', JStr ''wikimedia'')]])]),
           \<lparr>image_cache = [(url shakespeare_portrait, ''TQ=='')], net_calls = 1\<rparr>)"
    by (simp add: eval_defs shakespeare_portrait_def)
  from processed_image_fields
    [of plain_key serves_M prints _ _ initial_world
        "Inr (JObj [(''query'', JStr ''Shakespeare'')])"] 1
  show ?thesis by blast
qed

text \<open>
  The claim as stated ties \<^verbatim>\<open>url\<close> to the fetch being absent, and fails on a response
  with status 200 and an empty body: the fetch returns the empty string, which is not
  \<^verbatim>\<open>None\<close>, and \<^verbatim>\<open>not image_data\<close> holds for it, so \<^verbatim>\<open>url\<close> is the location.
\<close>

theorem empty_body_url_counterexample:
  "fst (download_image plain_key (always (Response 200 [])) prints (url shakespeare_portrait)
      initial_world) = Inr (Some [])
   \<and> fst (fetch_image plain_key (always (Response 200 [])) prints
        (Inr (JObj [(''query'', JStr ''Shakespeare'')])) initial_world)
     = Inr (JObj [(''success'', JBool True),
             (''images'', JArr [JObj [(''url'', JStr (url shakespeare_portrait)),
                (''data'', JStr []),
                (''title'', JStr ''William Shakespeare Portrait''),
                (''educational_caption'', JStr ''William Shakespeare - The Bard''),
                (''alt_text'', JStr ''Portrait of William Shakespeare''),
                (''source'', JStr ''wikimedia'')]])])
   \<and> url shakespeare_portrait \<noteq> []"
  by (simp add: eval_defs shakespeare_portrait_def)

text \<open>The handler lets through what is not an instance of \<^verbatim>\<open>Exception\<close>, and nothing else.\<close>

lemma fetch_image_Inl:
  "fst (fetch_image h tr pr rq w) = Inl e'
     \<longleftrightarrow> fst (fetch_image_try h tr pr rq w) = Inl e' \<and> \<not> is_Exception e'"
  by (cases "fetch_image_try h tr pr rq w") (auto simp: fetch_image_def split: sum.splits)

text \<open>
  Claim C6, as the code has it. Whenever an instance of \<^verbatim>\<open>Exception\<close> leaves the body
  of the handler's \<^verbatim>\<open>try\<close> block, the handler returns \<^verbatim>\<open>success: false\<close>, no images
  and the text of the exception as \<^verbatim>\<open>error\<close>. So it is for a body that cannot be
  parsed (\<^verbatim>\<open>request.json\<close> raises) and for a body that is not an object (it has no
  \<^verbatim>\<open>get\<close>). An exception leaves the handler only if it is not an instance of
  \<^verbatim>\<open>Exception\<close>, and then it is the one that left the \<^verbatim>\<open>try\<close> block.
\<close>

theorem handler_catches_exceptions:
  "(fst (fetch_image_try h tr pr rq w) = Inl e \<and> is_Exception e \<longrightarrow>
      fetch_image h tr pr rq w =
        (Inr (JObj [(''success'', JBool False), (''images'', JArr []),
                    (''error'', JStr (exn_str e))]),
         snd (fetch_image_try h tr pr rq w)))
   \<and> (is_Exception e \<longrightarrow>
      fetch_image h tr pr (Inl e) w =
        (Inr (JObj [(''success'', JBool False), (''images'', JArr []),
                    (''error'', JStr (exn_str e))]), w))
   \<and> (type_name data \<noteq> ''dict'' \<longrightarrow>
      fetch_image h tr pr (Inr data) w =
        (Inr (JObj [(''success'', JBool False), (''images'', JArr []),
                    (''error'', JStr (exn_str (attribute_error data ''get'')))]), w))
   \<and> (fst (fetch_image h tr pr rq w) = Inl e' \<longrightarrow>
      \<not> is_Exception e' \<and> fst (fetch_image_try h tr pr rq w) = Inl e')"
proof (intro conjI impI)
  assume "fst (fetch_image_try h tr pr rq w) = Inl e \<and> is_Exception e"
  then show "fetch_image h tr pr rq w =
        (Inr (JObj [(''success'', JBool False), (''images'', JArr []),
                    (''error'', JStr (exn_str e))]),
         snd (fetch_image_try h tr pr rq w))"
    by (cases "fetch_image_try h tr pr rq w") (simp add: fetch_image_def)
next
  assume "is_Exception e"
  then show "fetch_image h tr pr (Inl e) w =
        (Inr (JObj [(''success'', JBool False), (''images'', JArr []),
                    (''error'', JStr (exn_str e))]), w)"
    by (simp add: fetch_image_def fetch_image_try_def)
next
  assume "type_name data \<noteq> ''dict''"
  then have "dict_get data ''query'' (JStr []) = Inl (attribute_error data ''get'')"
    by (cases data) (simp_all add: dict_get_def)
  then show "fetch_image h tr pr (Inr data) w =
        (Inr (JObj [(''success'', JBool False), (''images'', JArr []),
                    (''error'', JStr (exn_str (attribute_error data ''get'')))]), w)"
    by (simp add: fetch_image_def fetch_image_try_def attribute_error_def)
next
  assume "fst (fetch_image h tr pr rq w) = Inl e'"
  then show "\<not> is_Exception e'" and "fst (fetch_image_try h tr pr rq w) = Inl e'"
    unfolding fetch_image_Inl by simp_all
qed

theorem handler_catches_exceptions_witness:
  "fst (fetch_image_try plain_key serves_M prints
      (Inr (JObj [(''query'', JStr ''dna''), (''count'', JStr ''2'')])) initial_world)
    = Inl (Exn ''TypeError''
        ''slice indices must be integers or None or have an __index__ method'')
   \<and> fetch_image plain_key serves_M prints
      (Inr (JObj [(''query'', JStr ''dna''), (''count'', JStr ''2'')])) initial_world
    = (Inr (JObj [(''success'', JBool False), (''images'', JArr []),
         (''error'', JStr ''slice indices must be integers or None or have an __index__ method'')]),
       initial_world)
   \<and> is_Exception bad_request
   \<and> fetch_image plain_key serves_M prints (Inl bad_request) initial_world
    = (Inr (JObj [(''success'', JBool False), (''images'', JArr []),
             (''error'', JStr (exn_str bad_request))]), initial_world)
   \<and> type_name (JArr [JInt 1]) \<noteq> ''dict''
   \<and> fetch_image plain_key serves_M prints (Inr (JArr [JInt 1])) initial_world
    = (Inr (JObj [(''success'', JBool False), (''images'', JArr []),
             (''error'', JStr (exn_str (attribute_error (JArr [JInt 1]) ''get'')))]),
       initial_world)
   \<and> fst (fetch_image plain_key times_out closed_pipe
        (Inr (JObj [(''query'', JStr ''dna'')])) initial_world)
    = Inr (JObj [(''success'', JBool False), (''images'', JArr []),
            (''error'', JStr (exn_str broken_pipe))])
   \<and> fst (fetch_image plain_key interrupted prints
        (Inr (JObj [(''query'', JStr ''dna'')])) initial_world) = Inl keyboard_interrupt
   \<and> \<not> is_Exception keyboard_interrupt"
proof -
  let ?te = "Exn ''TypeError''
    ''slice indices must be integers or None or have an __index__ method''"
  let ?rq = "Inr (JObj [(''query'', JStr ''dna''), (''count'', JStr ''2'')])"
  let ?dna = "Inr (JObj [(''query'', JStr ''dna'')])"
  have 1: "fst (fetch_image_try plain_key serves_M prints ?rq initial_world) = Inl ?te"
    and 11: "snd (fetch_image_try plain_key serves_M prints ?rq initial_world) = initial_world"
    by (simp_all add: fetch_image_try_def dict_get_def call_find_relevant_images_def
        keyword_results_def find_relevant_images_def lower_def lower_char_def slice_upto_def Let_def)
  have 2: "type_name (JArr [JInt 1]) \<noteq> ''dict''"
    by simp
  have 3: "is_Exception bad_request" "is_Exception ?te" "is_Exception broken_pipe"
    by (simp_all add: bad_request_def broken_pipe_def)
  from handler_catches_exceptions
    [of plain_key serves_M prints ?rq initial_world ?te] 1 11 3
  have 4: "fetch_image plain_key serves_M prints ?rq initial_world
    = (Inr (JObj [(''success'', JBool False), (''images'', JArr []),
         (''error'', JStr ''slice indices must be integers or None or have an __index__ method'')]),
       initial_world)"
    by simp
  from handler_catches_exceptions
    [of plain_key serves_M prints _ initial_world bad_request "JArr [JInt 1]"] 2 3
  have 5: "fetch_image plain_key serves_M prints (Inl bad_request) initial_world
    = (Inr (JObj [(''success'', JBool False), (''images'', JArr []),
             (''error'', JStr (exn_str bad_request))]), initial_world)"
    and 6: "fetch_image plain_key serves_M prints (Inr (JArr [JInt 1])) initial_world
    = (Inr (JObj [(''success'', JBool False), (''images'', JArr []),
             (''error'', JStr (exn_str (attribute_error (JArr [JInt 1]) ''get'')))]),
       initial_world)"
    by blast+
  have 7: "fst (fetch_image_try plain_key times_out closed_pipe ?dna initial_world)
      = Inl broken_pipe"
    by (simp add: eval_defs dna_structure_def)
  from handler_catches_exceptions
    [of plain_key times_out closed_pipe ?dna initial_world broken_pipe] 7 3
  have 8: "fst (fetch_image plain_key times_out closed_pipe ?dna initial_world)
    = Inr (JObj [(''success'', JBool False), (''images'', JArr []),
            (''error'', JStr (exn_str broken_pipe))])"
    by simp
  have 9: "fst (fetch_image plain_key interrupted prints ?dna initial_world)
      = Inl keyboard_interrupt"
    by (simp add: eval_defs dna_structure_def)
  from handler_catches_exceptions
    [of plain_key interrupted prints ?dna initial_world _ _ keyboard_interrupt] 9
  have 10: "\<not> is_Exception keyboard_interrupt"
    by blast
  from 1 2 3 4 5 6 8 9 10 show ?thesis by simp
qed

text \<open>
  The claim as stated, that no exception at all escapes, fails: a \<^verbatim>\<open>KeyboardInterrupt\<close>
  raised during the fetch passes both \<^verbatim>\<open>except Exception\<close> clauses, and the handler
  gives no payload.
\<close>

theorem handler_exception_escapes_counterexample:
  "fst (fetch_image plain_key interrupted prints
      (Inr (JObj [(''query'', JStr ''dna'')])) initial_world) = Inl keyboard_interrupt"
  by (simp add: eval_defs dna_structure_def)

text \<open>
  Claim C10, as the code has it. For a request whose body is an object in which the query
  is a string or missing, the subject a string, null or missing, and the count an integer
  that is zero or negative, the handler answers \<^verbatim>\<open>success: true\<close> with an empty list
  of images, and fetches nothing.
\<close>

theorem nonpositive_count_gives_no_images:
  assumes "map_of kvs ''query'' = None \<or> (\<exists>q. map_of kvs ''query'' = Some (JStr q))"
    and "map_of kvs ''subject'' = None \<or> map_of kvs ''subject'' = Some JNull
         \<or> (\<exists>s. map_of kvs ''subject'' = Some (JStr s))"
    and "map_of kvs ''count'' = Some (JInt n)" and "n \<le> 0"
  shows "fetch_image h tr pr (Inr (JObj kvs)) w =
     (Inr (JObj [(''success'', JBool True), (''images'', JArr [])]), w)"
proof -
  from assms(1) obtain q where q: "dict_get (JObj kvs) ''query'' (JStr []) = Inr (JStr q)"
    by (auto simp: dict_get_def)
  from assms(2) obtain sv where s: "dict_get (JObj kvs) ''subject'' JNull = Inr sv"
    and sv: "sv = JNull \<or> (\<exists>s. sv = JStr s)"
    by (auto simp: dict_get_def)
  from assms(3) have c: "dict_get (JObj kvs) ''count'' (JInt 1) = Inr (JInt n)"
    by (simp add: dict_get_def)
  from sv obtain e where i: "call_find_relevant_images (JStr q) sv = Inr [e]"
    using call_find_relevant_images_typed by blast
  from assms(4) have sl: "slice_upto [e] (JInt n) = Inr []"
    by (simp add: slice_upto_def slice_upto_int_nonpositive)
  from q s c i sl have "fetch_image_try h tr pr (Inr (JObj kvs)) w =
      (Inr (JObj [(''success'', JBool True), (''images'', JArr [])]), w)"
    by (simp add: fetch_image_try_def)
  then show ?thesis by (simp add: fetch_image_def)
qed

theorem nonpositive_count_gives_no_images_witness:
  "fetch_image plain_key serves_M prints
      (Inr (JObj [(''query'', JStr ''solar system''), (''count'', JInt (- 2))])) initial_world
    = (Inr (JObj [(''success'', JBool True), (''images'', JArr [])]), initial_world)"
proof -
  have 1: "map_of [(''query'', JStr ''solar system''), (''count'', JInt (- 2))] ''query'' = None
    \<or> (\<exists>q. map_of [(''query'', JStr ''solar system''), (''count'', JInt (- 2))] ''query''
          = Some (JStr q))"
    by simp
  have 2: "map_of [(''query'', JStr ''solar system''), (''count'', JInt (- 2))] ''subject'' = None
    \<or> map_of [(''query'', JStr ''solar system''), (''count'', JInt (- 2))] ''subject'' = Some JNull
    \<or> (\<exists>s. map_of [(''query'', JStr ''solar system''), (''count'', JInt (- 2))] ''subject''
          = Some (JStr s))"
    by simp
  have 3: "map_of [(''query'', JStr ''solar system''), (''count'', JInt (- 2))] ''count''
    = Some (JInt (- 2))"
    by simp
  have 4: "(- 2 :: int) \<le> 0"
    by simp
  from nonpositive_count_gives_no_images [OF 1 2 3 4] show ?thesis .
qed

text \<open>
  A body that parses is not enough: with a query that is a number the resolver raises at
  \<^verbatim>\<open>query.lower()\<close>, and the answer to a count of zero is an error.
\<close>

theorem nonpositive_count_counterexample:
  "fetch_image plain_key serves_M prints
      (Inr (JObj [(''query'', JInt 7), (''count'', JInt 0)])) initial_world
    = (Inr (JObj [(''success'', JBool False), (''images'', JArr []),
             (''error'', JStr (exn_str (attribute_error (JInt 7) ''lower'')))]), initial_world)
   \<and> fst (fetch_image plain_key serves_M prints
      (Inr (JObj [(''query'', JInt 7), (''count'', JInt 0)])) initial_world)
    \<noteq> Inr (JObj [(''success'', JBool True), (''images'', JArr [])])"
  by (simp add: fetch_image_def fetch_image_try_def dict_get_def call_find_relevant_images_def
      attribute_error_def)

end
